theory Spec2Isabelle
  imports Complex_Main "HOL-Library.Multiset"
begin

section \<open>JavaScript values reaching the backend\<close>

text \<open>
  The validator takes \<open>body: any\<close>, so the model needs the untyped values that a request
  body can hold. A number is an IEEE double: a finite value, NaN or an infinity; only its
  sign and its being zero matter to the code below, so the finite ones are kept as reals.
  A string is its list of code units (\<open>.length\<close> is the length of the list). An object is
  the list of its own properties; \<open>map_of\<close> reads a property.
\<close>

datatype jsnum = Fin real | NaN | PosInf | NegInf

datatype jsval =
    JUndefined
  | JNull
  | JBool bool
  | JNum jsnum
  | JStr string
  | JArr "jsval list"
  | JObj "(string \<times> jsval) list"

datatype js_error = TypeError | IOError

text \<open>\<open>!x\<close> is \<open>\<not> truthy x\<close>: undefined, null, false, 0, NaN and the empty string are falsy.\<close>

fun truthy :: "jsval \<Rightarrow> bool" where
  "truthy JUndefined = False"
| "truthy JNull = False"
| "truthy (JBool b) = b"
| "truthy (JNum (Fin r)) = (r \<noteq> 0)"
| "truthy (JNum NaN) = False"
| "truthy (JNum PosInf) = True"
| "truthy (JNum NegInf) = True"
| "truthy (JStr s) = (s \<noteq> [])"
| "truthy (JArr xs) = True"
| "truthy (JObj ps) = True"

text \<open>
  \<open>x.name\<close> for the property names the code reads (vehicleId, odometerKm, items, note,
  key, status): reading a property of undefined or null throws a TypeError; an object
  gives the property's value, or undefined when it has none; a boolean, number, string
  or array has no property of these names and gives undefined.
\<close>

fun get_prop :: "jsval \<Rightarrow> string \<Rightarrow> js_error + jsval" where
  "get_prop JUndefined name = Inl TypeError"
| "get_prop JNull name = Inl TypeError"
| "get_prop (JObj ps) name = Inr (case map_of ps name of None \<Rightarrow> JUndefined | Some v \<Rightarrow> v)"
| "get_prop v name = Inr JUndefined"

fun num_le_zero :: "jsnum \<Rightarrow> bool" where
  "num_le_zero (Fin r) = (r \<le> 0)"
| "num_le_zero NaN = False"
| "num_le_zero PosInf = False"
| "num_le_zero NegInf = True"

text \<open>\<open>xs.join(sep)\<close> on an array of strings.\<close>

fun join :: "string \<Rightarrow> string list \<Rightarrow> string" where
  "join sep [] = []"
| "join sep [x] = x"
| "join sep (x # y # ys) = x @ sep @ join sep (y # ys)"

text \<open>The decimal digits of an array index, as a template literal prints it.\<close>

definition digit_char :: "nat \<Rightarrow> char" where
  "digit_char d = ''0123456789'' ! d"

fun string_of_nat :: "nat \<Rightarrow> string" where
  "string_of_nat n =
     (if n < 10 then [digit_char n] else string_of_nat (n div 10) @ [digit_char (n mod 10)])"

declare string_of_nat.simps [simp del]

text \<open>The template literal \<open>`items[${index}].name`\<close>.\<close>

definition item_field :: "nat \<Rightarrow> string \<Rightarrow> string" where
  "item_field index name = ''items['' @ string_of_nat index @ ''].'' @ name"

section \<open>Types (types.ts)\<close>

record Vehicle =
  id_v :: string
  registration :: string
  make_v :: string
  model :: string
  year :: real

record CheckItem =
  key :: string
  status :: string

text \<open>
  The argument of \<open>createCheck\<close>. The controller passes \<open>req.body\<close> itself, so the object
  can carry more properties than the interface names (the record's extension part), and
  \<open>note_val\<close> is whatever \<open>checkData.note\<close> evaluates to, \<open>JUndefined\<close> when the property
  is not there.
\<close>

record CreateCheckData =
  vehicleId :: string
  odometerKm :: real
  items :: "CheckItem list"
  note_val :: jsval

record CheckFilters =
  vehicleId :: string
  hasIssue :: "bool option"

text \<open>
  \<open>note_opt\<close> is the optional property \<open>note\<close>: \<open>None\<close> is a Check without it, \<open>Some v\<close> a
  Check that has it with value \<open>v\<close>. \<open>createdAt\<close> is written as \<open>toISOString()\<close> of an
  instant and read back through \<open>new Date(..).getTime()\<close>; the model keeps the instant,
  in milliseconds since the epoch.
\<close>

record Check =
  id_c :: string
  vehicleId :: string
  odometerKm :: real
  items :: "CheckItem list"
  note_opt :: "jsval option"
  hasIssue :: bool
  createdAt :: int

record ValidationError =
  field :: string
  reason :: string

section \<open>Data access (database.ts)\<close>

text \<open>
  The two JSON files and the file system's state: \<open>None\<close> is a file that
  \<open>fs.readFileSync\<close> or \<open>JSON.parse\<close> fails on, \<open>writable\<close> tells whether
  \<open>fs.writeFileSync\<close> succeeds, and \<open>writes\<close> counts the writes done to checks.json.
  A file that parses holds an array of records of the declared type, as \<open>writeChecks\<close>
  leaves it.
\<close>

record store =
  vehicles_file :: "Vehicle list option"
  checks_file :: "Check list option"
  writable :: bool
  writes :: nat

text \<open>The body of a \<open>try\<close>: read and parse the file, or throw.\<close>

definition read_parse :: "'a option \<Rightarrow> js_error + 'a" where
  "read_parse f = (case f of None \<Rightarrow> Inl IOError | Some x \<Rightarrow> Inr x)"

definition readVehicles :: "store \<Rightarrow> js_error + Vehicle list" where
  "readVehicles st =
     (case read_parse (vehicles_file st) of
        Inr data \<Rightarrow> Inr data
      | Inl error \<Rightarrow> Inr [])"

definition readChecks :: "store \<Rightarrow> js_error + Check list" where
  "readChecks st =
     (case read_parse (checks_file st) of
        Inr data \<Rightarrow> Inr data
      | Inl error \<Rightarrow> Inr [])"

definition write_file :: "Check list \<Rightarrow> store \<Rightarrow> js_error + store" where
  "write_file checks st =
     (if writable st then Inr (st\<lparr>checks_file := Some checks, writes := Suc (writes st)\<rparr>)
      else Inl IOError)"

definition writeChecks :: "Check list \<Rightarrow> store \<Rightarrow> js_error + store" where
  "writeChecks checks st =
     (case write_file checks st of
        Inr st' \<Rightarrow> Inr st'
      | Inl error \<Rightarrow> Inl error)"

definition vehicleExists :: "store \<Rightarrow> string \<Rightarrow> js_error + bool" where
  "vehicleExists st vid =
     (case readVehicles st of
        Inl e \<Rightarrow> Inl e
      | Inr vehicles \<Rightarrow> Inr (list_ex (\<lambda>v. id_v v = vid) vehicles))"

section \<open>Validation (validation.ts)\<close>

definition VALID_KEYS :: "string list" where
  "VALID_KEYS = [''TYRES'', ''BRAKES'', ''LIGHTS'', ''OIL'', ''COOLANT'']"

definition VALID_STATUSES :: "string list" where
  "VALID_STATUSES = [''OK'', ''FAIL'']"

text \<open>\<open>xs.includes(v)\<close> for an array of strings and any value \<open>v\<close>.\<close>

definition includes_str :: "string list \<Rightarrow> jsval \<Rightarrow> bool" where
  "includes_str xs v = (v \<in> set (map JStr xs))"

definition err :: "string \<Rightarrow> string \<Rightarrow> ValidationError" where
  "err f r = \<lparr>field = f, reason = r\<rparr>"

text \<open>Each block of the function pushes onto \<open>errors\<close>; a block is a function of that list.\<close>

definition validate_vehicleId :: "store \<Rightarrow> jsval \<Rightarrow> ValidationError list
    \<Rightarrow> js_error + ValidationError list" where
  "validate_vehicleId st body errors =
     (case get_prop body ''vehicleId'' of
        Inl e \<Rightarrow> Inl e
      | Inr v \<Rightarrow>
          if \<not> truthy v then Inr (errors @ [err ''vehicleId'' ''is required''])
          else (case v of
                  JStr s \<Rightarrow>
                    (case vehicleExists st s of
                       Inl e \<Rightarrow> Inl e
                     | Inr ex \<Rightarrow>
                         if \<not> ex then Inr (errors @ [err ''vehicleId'' ''vehicle does not exist''])
                         else Inr errors)
                | _ \<Rightarrow> Inr (errors @ [err ''vehicleId'' ''must be a string''])))"

definition validate_odometerKm :: "jsval \<Rightarrow> ValidationError list
    \<Rightarrow> js_error + ValidationError list" where
  "validate_odometerKm body errors =
     (case get_prop body ''odometerKm'' of
        Inl e \<Rightarrow> Inl e
      | Inr v \<Rightarrow>
          if v = JUndefined \<or> v = JNull then Inr (errors @ [err ''odometerKm'' ''is required''])
          else (case v of
                  JNum n \<Rightarrow>
                    if num_le_zero n then Inr (errors @ [err ''odometerKm'' ''must be > 0''])
                    else Inr errors
                | _ \<Rightarrow> Inr (errors @ [err ''odometerKm'' ''must be a number''])))"

text \<open>The callback of \<open>body.items.forEach\<close>, on the pair of \<open>errors\<close> and the set \<open>keys\<close>.\<close>

definition validate_item :: "nat \<Rightarrow> jsval \<Rightarrow> ValidationError list \<times> jsval set
    \<Rightarrow> js_error + ValidationError list \<times> jsval set" where
  "validate_item index item acc =
     (case acc of (errors, keys) \<Rightarrow>
      case get_prop item ''key'' of
        Inl e \<Rightarrow> Inl e
      | Inr k \<Rightarrow>
          let (errors1, keys1) =
            (if \<not> truthy k then
               (errors @ [err (item_field index ''key'') ''is required''], keys)
             else if \<not> includes_str VALID_KEYS k then
               (errors @ [err (item_field index ''key'')
                              (''must be one of: '' @ join '', '' VALID_KEYS)], keys)
             else (errors, insert k keys))
          in
          case get_prop item ''status'' of
            Inl e \<Rightarrow> Inl e
          | Inr s \<Rightarrow>
              if \<not> truthy s then
                Inr (errors1 @ [err (item_field index ''status'') ''is required''], keys1)
              else if \<not> includes_str VALID_STATUSES s then
                Inr (errors1 @ [err (item_field index ''status'')
                                    (''must be one of: '' @ join '', '' VALID_STATUSES)], keys1)
              else Inr (errors1, keys1))"

fun forEach_item :: "nat \<Rightarrow> jsval list \<Rightarrow> ValidationError list \<times> jsval set
    \<Rightarrow> js_error + ValidationError list \<times> jsval set" where
  "forEach_item index [] acc = Inr acc"
| "forEach_item index (item # rest) acc =
     (case validate_item index item acc of
        Inl e \<Rightarrow> Inl e
      | Inr acc' \<Rightarrow> forEach_item (Suc index) rest acc')"

text \<open>\<open>VALID_KEYS.forEach\<close>: one error for each required key that \<open>keys\<close> lacks.\<close>

fun missing_keys :: "string list \<Rightarrow> jsval set \<Rightarrow> ValidationError list \<Rightarrow> ValidationError list" where
  "missing_keys [] keys errors = errors"
| "missing_keys (k # ks) keys errors =
     missing_keys ks keys
       (if JStr k \<notin> keys then errors @ [err ''items'' (''missing required key: '' @ k)]
        else errors)"

definition validate_items :: "jsval \<Rightarrow> ValidationError list \<Rightarrow> js_error + ValidationError list" where
  "validate_items body errors =
     (case get_prop body ''items'' of
        Inl e \<Rightarrow> Inl e
      | Inr v \<Rightarrow>
          if \<not> truthy v then Inr (errors @ [err ''items'' ''is required''])
          else (case v of
                  JArr its \<Rightarrow>
                    let errors1 =
                      (if length its \<noteq> 5 then errors @ [err ''items'' ''must contain exactly 5 items'']
                       else errors)
                    in
                    (case forEach_item 0 its (errors1, {}) of
                       Inl e \<Rightarrow> Inl e
                     | Inr (errors2, keys) \<Rightarrow>
                         let errors3 =
                           (if length its = 5 \<and> card keys \<noteq> 5 then
                              errors2 @ [err ''items''
                                ''must contain all 5 keys exactly once (no duplicates)'']
                            else errors2)
                         in Inr (missing_keys VALID_KEYS keys errors3))
                | _ \<Rightarrow> Inr (errors @ [err ''items'' ''must be an array''])))"

definition validate_note :: "jsval \<Rightarrow> ValidationError list \<Rightarrow> js_error + ValidationError list" where
  "validate_note body errors =
     (case get_prop body ''note'' of
        Inl e \<Rightarrow> Inl e
      | Inr v \<Rightarrow>
          if v \<noteq> JUndefined \<and> v \<noteq> JNull then
            (case v of
               JStr s \<Rightarrow>
                 if length s > 300 then Inr (errors @ [err ''note'' ''must be <= 300 characters''])
                 else Inr errors
             | _ \<Rightarrow> Inr (errors @ [err ''note'' ''must be a string'']))
          else Inr errors)"

definition validateCheckRequest :: "store \<Rightarrow> jsval \<Rightarrow> js_error + ValidationError list" where
  "validateCheckRequest st body =
     (case validate_vehicleId st body [] of
        Inl e \<Rightarrow> Inl e
      | Inr errors1 \<Rightarrow>
     (case validate_odometerKm body errors1 of
        Inl e \<Rightarrow> Inl e
      | Inr errors2 \<Rightarrow>
     (case validate_items body errors2 of
        Inl e \<Rightarrow> Inl e
      | Inr errors3 \<Rightarrow> validate_note body errors3)))"

section \<open>Check service (services/checkService.ts)\<close>

text \<open>
  \<open>uuid\<close> is what \<open>uuidv4()\<close> returns and \<open>now\<close> the instant \<open>new Date()\<close> reads. The
  functions take the store and return the store they leave.
\<close>

definition createCheck :: "string \<Rightarrow> int \<Rightarrow> 'a CreateCheckData_scheme \<Rightarrow> store
    \<Rightarrow> js_error + Check \<times> store" where
  "createCheck uuid now checkData st =
     (let hasIssue' = list_ex (\<lambda>item. status item = ''FAIL'') (CreateCheckData.items checkData);
          newCheck = \<lparr>id_c = uuid,
                      vehicleId = CreateCheckData.vehicleId checkData,
                      odometerKm = CreateCheckData.odometerKm checkData,
                      items = CreateCheckData.items checkData,
                      note_opt = (if note_val checkData \<noteq> JUndefined
                                  then Some (note_val checkData) else None),
                      hasIssue = hasIssue',
                      createdAt = now\<rparr>
      in case readChecks st of
           Inl e \<Rightarrow> Inl e
         | Inr checks \<Rightarrow>
             (case writeChecks (checks @ [newCheck]) st of
                Inl e \<Rightarrow> Inl e
              | Inr st' \<Rightarrow> Inr (newCheck, st')))"

text \<open>
  \<open>Array.prototype.sort\<close> with a comparator is a stable sort: \<open>a\<close> goes before \<open>b\<close> when
  \<open>cmp a b < 0\<close>, and elements that compare equal keep their order. Under a comparator
  that orders by a key, as the one of \<open>getChecks\<close> does, a stable sort has one possible
  result; sorting by insertion computes it.
\<close>

fun insert_by :: "('a \<Rightarrow> 'a \<Rightarrow> int) \<Rightarrow> 'a \<Rightarrow> 'a list \<Rightarrow> 'a list" where
  "insert_by cmp x [] = [x]"
| "insert_by cmp x (y # ys) =
     (if cmp x y \<le> 0 then x # y # ys else y # insert_by cmp x ys)"

definition sort_by :: "('a \<Rightarrow> 'a \<Rightarrow> int) \<Rightarrow> 'a list \<Rightarrow> 'a list" where
  "sort_by cmp xs = foldr (insert_by cmp) xs []"

definition getChecks :: "CheckFilters \<Rightarrow> store \<Rightarrow> js_error + Check list" where
  "getChecks filters st =
     (case readChecks st of
        Inl e \<Rightarrow> Inl e
      | Inr checks \<Rightarrow>
          let checks1 = filter (\<lambda>check. vehicleId check = CheckFilters.vehicleId filters) checks;
              checks2 = (case CheckFilters.hasIssue filters of
                           None \<Rightarrow> checks1
                         | Some h \<Rightarrow> filter (\<lambda>check. hasIssue check = h) checks1)
          in Inr (sort_by (\<lambda>a b. createdAt b - createdAt a) checks2))"

definition getCheckById :: "string \<Rightarrow> store \<Rightarrow> js_error + Check option" where
  "getCheckById checkId st =
     (case readChecks st of
        Inl e \<Rightarrow> Inl e
      | Inr checks \<Rightarrow> Inr (find (\<lambda>check. id_c check = checkId) checks))"

definition deleteCheck :: "string \<Rightarrow> store \<Rightarrow> js_error + bool \<times> store" where
  "deleteCheck checkId st =
     (case readChecks st of
        Inl e \<Rightarrow> Inl e
      | Inr checks \<Rightarrow>
          let initialLength = length checks;
              filteredChecks = filter (\<lambda>check. id_c check \<noteq> checkId) checks
          in if length filteredChecks = initialLength then Inr (False, st)
             else (case writeChecks filteredChecks st of
                     Inl e \<Rightarrow> Inl e
                   | Inr st' \<Rightarrow> Inr (True, st')))"

text \<open>The two filter callbacks of \<open>getChecks\<close> taken together.\<close>

definition matches :: "CheckFilters \<Rightarrow> Check \<Rightarrow> bool" where
  "matches filters check \<longleftrightarrow>
     vehicleId check = CheckFilters.vehicleId filters
     \<and> (case CheckFilters.hasIssue filters of None \<Rightarrow> True | Some h \<Rightarrow> hasIssue check = h)"

section \<open>Notions used in the statements and proofs\<close>

text \<open>
  The errors that one block of the validator pushes, and the keys one item adds, obtained
  by running the block on an empty error list; \<open>raises\<close> describes the payloads on which
  a property read hits null or undefined.
\<close>

definition nullish :: "jsval \<Rightarrow> bool" where
  "nullish v \<longleftrightarrow> v = JUndefined \<or> v = JNull"

definition item_errors :: "nat \<Rightarrow> jsval \<Rightarrow> ValidationError list" where
  "item_errors index item =
     (case validate_item index item ([], {}) of Inr (errors, keys) \<Rightarrow> errors | Inl e \<Rightarrow> [])"

definition item_keys :: "jsval \<Rightarrow> jsval set" where
  "item_keys item =
     (case validate_item 0 item ([], {}) of Inr (errors, keys) \<Rightarrow> keys | Inl e \<Rightarrow> {})"

definition vehicleId_errors :: "store \<Rightarrow> jsval \<Rightarrow> ValidationError list" where
  "vehicleId_errors st body =
     (case validate_vehicleId st body [] of Inr errors \<Rightarrow> errors | Inl e \<Rightarrow> [])"

definition odometerKm_errors :: "jsval \<Rightarrow> ValidationError list" where
  "odometerKm_errors body =
     (case validate_odometerKm body [] of Inr errors \<Rightarrow> errors | Inl e \<Rightarrow> [])"

definition items_errors :: "jsval \<Rightarrow> ValidationError list" where
  "items_errors body =
     (case validate_items body [] of Inr errors \<Rightarrow> errors | Inl e \<Rightarrow> [])"

definition note_errors :: "jsval \<Rightarrow> ValidationError list" where
  "note_errors body =
     (case validate_note body [] of Inr errors \<Rightarrow> errors | Inl e \<Rightarrow> [])"

definition raises :: "jsval \<Rightarrow> bool" where
  "raises body \<longleftrightarrow>
     nullish body
     \<or> (\<exists>its. get_prop body ''items'' = Inr (JArr its) \<and> (\<exists>item \<in> set its. nullish item))"

section \<open>Values of the test suite\<close>

text \<open>
  The fixtures of the repository's tests (mockVehicles, mockCheckItems, mockChecks),
  used below to run the definitions on concrete inputs.
\<close>

definition mockVehicles :: "Vehicle list" where
  "mockVehicles =
     [\<lparr>id_v = ''VH001'', registration = ''ABC123'', make_v = ''Toyota'', model = ''Hilux'',
        year = 2022\<rparr>,
      \<lparr>id_v = ''VH002'', registration = ''XYZ789'', make_v = ''Ford'', model = ''Ranger'',
        year = 2021\<rparr>]"

definition mockCheckItems :: "CheckItem list" where
  "mockCheckItems =
     [\<lparr>key = ''TYRES'', status = ''OK''\<rparr>, \<lparr>key = ''BRAKES'', status = ''OK''\<rparr>,
      \<lparr>key = ''LIGHTS'', status = ''OK''\<rparr>, \<lparr>key = ''OIL'', status = ''OK''\<rparr>,
      \<lparr>key = ''COOLANT'', status = ''OK''\<rparr>]"

definition failingItems :: "CheckItem list" where
  "failingItems =
     [\<lparr>key = ''TYRES'', status = ''OK''\<rparr>, \<lparr>key = ''BRAKES'', status = ''FAIL''\<rparr>,
      \<lparr>key = ''LIGHTS'', status = ''OK''\<rparr>, \<lparr>key = ''OIL'', status = ''OK''\<rparr>,
      \<lparr>key = ''COOLANT'', status = ''OK''\<rparr>]"

definition CHK001 :: Check where
  "CHK001 = \<lparr>id_c = ''CHK001'', vehicleId = ''VH001'', odometerKm = 15420,
     items = mockCheckItems, note_opt = Some (JStr ''All systems nominal''),
     hasIssue = False, createdAt = 1768897800000\<rparr>"

definition CHK002 :: Check where
  "CHK002 = \<lparr>id_c = ''CHK002'', vehicleId = ''VH001'', odometerKm = 16500,
     items = failingItems, note_opt = None,
     hasIssue = True, createdAt = 1769336100000\<rparr>"

definition mockChecks :: "Check list" where
  "mockChecks = [CHK001, CHK002]"

definition mockStore :: store where
  "mockStore = \<lparr>vehicles_file = Some mockVehicles, checks_file = Some mockChecks,
     writable = True, writes = 0\<rparr>"

text \<open>A file system on which neither file can be read and nothing can be written.\<close>

definition brokenStore :: store where
  "brokenStore = \<lparr>vehicles_file = None, checks_file = None, writable = False, writes = 0\<rparr>"

text \<open>Request bodies: the items of the tests' validBody, and variations of that body.\<close>

definition validItems :: "jsval list" where
  "validItems =
     [JObj [(''key'', JStr ''TYRES''), (''status'', JStr ''OK'')],
      JObj [(''key'', JStr ''BRAKES''), (''status'', JStr ''OK'')],
      JObj [(''key'', JStr ''LIGHTS''), (''status'', JStr ''OK'')],
      JObj [(''key'', JStr ''OIL''), (''status'', JStr ''OK'')],
      JObj [(''key'', JStr ''COOLANT''), (''status'', JStr ''OK'')]]"

definition nullNoteBody :: "(string \<times> jsval) list" where
  "nullNoteBody = [(''vehicleId'', JStr ''VH001''), (''odometerKm'', JNum (Fin 15000)),
     (''items'', JArr validItems), (''note'', JNull)]"

definition wipersItems :: "jsval list" where
  "wipersItems =
     [JObj [(''key'', JStr ''TYRES''), (''status'', JStr ''OK'')],
      JObj [(''key'', JStr ''BRAKES''), (''status'', JStr ''OK'')],
      JObj [(''key'', JStr ''LIGHTS''), (''status'', JStr ''OK'')],
      JObj [(''key'', JStr ''OIL''), (''status'', JStr ''OK'')],
      JObj [(''key'', JStr ''WIPERS''), (''status'', JStr ''OK'')]]"

definition wipersBody :: jsval where
  "wipersBody = JObj [(''vehicleId'', JStr ''VH001''), (''odometerKm'', JNum (Fin 15000)),
     (''items'', JArr wipersItems)]"

definition emptyStringsBody :: jsval where
  "emptyStringsBody = JObj [(''vehicleId'', JStr []), (''odometerKm'', JNum (Fin 15000)),
     (''items'', JArr [JObj [(''key'', JStr []), (''status'', JStr [])]])]"

definition nullItemBody :: jsval where
  "nullItemBody = JObj [(''vehicleId'', JStr []), (''odometerKm'', JNum (Fin 15000)),
     (''items'', JArr [JNull])]"

section \<open>createCheck\<close>

lemma createCheck_writable:
  "writable st \<Longrightarrow>
   createCheck uuid now checkData st =
     Inr (\<lparr>id_c = uuid,
           vehicleId = CreateCheckData.vehicleId checkData,
           odometerKm = CreateCheckData.odometerKm checkData,
           items = CreateCheckData.items checkData,
           note_opt = (if note_val checkData \<noteq> JUndefined then Some (note_val checkData)
                       else None),
           hasIssue = list_ex (\<lambda>item. status item = ''FAIL'') (CreateCheckData.items checkData),
           createdAt = now\<rparr>,
          st\<lparr>checks_file :=
               Some ((case checks_file st of None \<Rightarrow> [] | Some cs \<Rightarrow> cs) @
                 [\<lparr>id_c = uuid,
                   vehicleId = CreateCheckData.vehicleId checkData,
                   odometerKm = CreateCheckData.odometerKm checkData,
                   items = CreateCheckData.items checkData,
                   note_opt = (if note_val checkData \<noteq> JUndefined
                               then Some (note_val checkData) else None),
                   hasIssue = list_ex (\<lambda>item. status item = ''FAIL'')
                                (CreateCheckData.items checkData),
                   createdAt = now\<rparr>]),
             writes := Suc (writes st)\<rparr>)"
  by (simp add: createCheck_def Let_def readChecks_def read_parse_def writeChecks_def
      write_file_def split: option.splits)

lemma createCheck_not_writable:
  "\<not> writable st \<Longrightarrow> createCheck uuid now checkData st = Inl IOError"
  by (simp add: createCheck_def Let_def readChecks_def read_parse_def writeChecks_def
      write_file_def split: option.splits)

lemma createCheck_Inr_writable:
  "createCheck uuid now checkData st = Inr r \<Longrightarrow> writable st"
  using createCheck_not_writable [of st uuid now checkData] by (cases "writable st") simp_all

text \<open>
  C1. The Check that createCheck returns is the last record of the store it leaves, and
  its hasIssue is true exactly when some item of the input has the status \<open>FAIL\<close>
  (string equality, so \<open>fail\<close> or \<open>FAILED\<close> do not count); it is false when every
  status is \<open>OK\<close>. This holds for every items list, so for every total assignment over
  the five keys. The input's other properties play no part: the call gives the same
  result on the input cut down to the four properties of CreateCheckData, whatever else
  (a hasIssue property, say) the input carried. createCheck does return whenever the
  store can be written.
\<close>

theorem createCheck_hasIssue:
  fixes checkData :: "'a CreateCheckData_scheme"
  shows "(\<forall>c st'. createCheck uuid now checkData st = Inr (c, st') \<longrightarrow>
        (hasIssue c \<longleftrightarrow> (\<exists>item \<in> set (CreateCheckData.items checkData). status item = ''FAIL''))
        \<and> ((\<forall>item \<in> set (CreateCheckData.items checkData). status item = ''OK'')
             \<longrightarrow> \<not> hasIssue c)
        \<and> (\<exists>checks. readChecks st = Inr checks \<and> readChecks st' = Inr (checks @ [c]))
        \<and> createCheck uuid now (CreateCheckData.truncate checkData) st = Inr (c, st'))
     \<and> (writable st \<longrightarrow> (\<exists>c st'. createCheck uuid now checkData st = Inr (c, st')))"
proof (intro conjI allI impI)
  fix c st'
  assume r: "createCheck uuid now checkData st = Inr (c, st')"
  then have w: "writable st" by (rule createCheck_Inr_writable)
  show "hasIssue c \<longleftrightarrow> (\<exists>item \<in> set (CreateCheckData.items checkData). status item = ''FAIL'')"
    using r by (auto simp add: createCheck_writable [OF w] list_ex_iff)
  show "\<not> hasIssue c" if "\<forall>item \<in> set (CreateCheckData.items checkData). status item = ''OK''"
    using r that by (auto simp add: createCheck_writable [OF w] list_ex_iff)
  show "\<exists>checks. readChecks st = Inr checks \<and> readChecks st' = Inr (checks @ [c])"
    using r by (auto simp add: createCheck_writable [OF w] readChecks_def read_parse_def
        split: option.splits)
  have "createCheck uuid now (CreateCheckData.truncate checkData) st
          = createCheck uuid now checkData st"
    by (simp add: createCheck_def CreateCheckData.truncate_def)
  then show "createCheck uuid now (CreateCheckData.truncate checkData) st = Inr (c, st')"
    using r by simp
next
  assume "writable st"
  then show "\<exists>c st'. createCheck uuid now checkData st = Inr (c, st')"
    by (simp add: createCheck_writable)
qed

theorem createCheck_hasIssue_witness:
  "writable mockStore
   \<and> (\<exists>c st'. createCheck ''test-uuid-1234'' 1769508000000
          \<lparr>CreateCheckData.vehicleId = ''VH001'', odometerKm = 15000, items = failingItems,
            note_val = JUndefined, \<dots> = [(''hasIssue'', JBool False)]\<rparr> mockStore = Inr (c, st')
        \<and> hasIssue c \<and> readChecks st' = Inr (mockChecks @ [c]))
   \<and> (\<exists>c st'. createCheck ''test-uuid-1234'' 1769508000000
          \<lparr>CreateCheckData.vehicleId = ''VH001'', odometerKm = 15000, items = mockCheckItems,
            note_val = JUndefined, \<dots> = [(''hasIssue'', JBool True)]\<rparr> mockStore = Inr (c, st')
        \<and> \<not> hasIssue c)"
  using createCheck_hasIssue [of "''test-uuid-1234''" 1769508000000
      "\<lparr>CreateCheckData.vehicleId = ''VH001'', odometerKm = 15000, items = failingItems,
        note_val = JUndefined, \<dots> = [(''hasIssue'', JBool False)]\<rparr>" mockStore]
    createCheck_hasIssue [of "''test-uuid-1234''" 1769508000000
      "\<lparr>CreateCheckData.vehicleId = ''VH001'', odometerKm = 15000, items = mockCheckItems,
        note_val = JUndefined, \<dots> = [(''hasIssue'', JBool True)]\<rparr>" mockStore]
  by (auto simp add: mockStore_def failingItems_def mockCheckItems_def readChecks_def
      read_parse_def)

text \<open>
  C2. The Check that createCheck returns and stores has no note property when the input
  has none (\<open>checkData.note\<close> is undefined): in particular the property is not there
  with the value null or the empty string. When the input's note is a string, the Check
  has the note property with that very string. createCheck does return whenever the store
  can be written.
\<close>

theorem createCheck_note:
  fixes checkData :: "'a CreateCheckData_scheme"
  shows "(\<forall>c st'. createCheck uuid now checkData st = Inr (c, st') \<longrightarrow>
        (note_val checkData = JUndefined \<longrightarrow>
           note_opt c = None \<and> note_opt c \<noteq> Some JNull \<and> note_opt c \<noteq> Some (JStr []))
        \<and> (\<forall>s. note_val checkData = JStr s \<longrightarrow> note_opt c = Some (JStr s))
        \<and> (\<exists>checks. readChecks st = Inr checks \<and> readChecks st' = Inr (checks @ [c])))
     \<and> (writable st \<longrightarrow> (\<exists>c st'. createCheck uuid now checkData st = Inr (c, st')))"
proof (intro conjI allI impI)
  fix c st'
  assume r: "createCheck uuid now checkData st = Inr (c, st')"
  then have w: "writable st" by (rule createCheck_Inr_writable)
  show "note_opt c = None" "note_opt c \<noteq> Some JNull" "note_opt c \<noteq> Some (JStr [])"
    if "note_val checkData = JUndefined"
    using r that by (auto simp add: createCheck_writable [OF w])
  show "note_opt c = Some (JStr s)" if "note_val checkData = JStr s" for s
    using r that by (auto simp add: createCheck_writable [OF w])
  show "\<exists>checks. readChecks st = Inr checks \<and> readChecks st' = Inr (checks @ [c])"
    using r by (auto simp add: createCheck_writable [OF w] readChecks_def read_parse_def
        split: option.splits)
next
  assume "writable st"
  then show "\<exists>c st'. createCheck uuid now checkData st = Inr (c, st')"
    by (simp add: createCheck_writable)
qed

theorem createCheck_note_witness:
  "writable mockStore
   \<and> (\<exists>c st'. createCheck ''test-uuid-1234'' 1769508000000
          \<lparr>CreateCheckData.vehicleId = ''VH002'', odometerKm = 20000, items = mockCheckItems,
            note_val = JUndefined\<rparr> mockStore = Inr (c, st')
        \<and> note_opt c = None \<and> readChecks st' = Inr (mockChecks @ [c]))
   \<and> (\<exists>c st'. createCheck ''test-uuid-1234'' 1769508000000
          \<lparr>CreateCheckData.vehicleId = ''VH001'', odometerKm = 15000, items = mockCheckItems,
            note_val = JStr ''All good''\<rparr> mockStore = Inr (c, st')
        \<and> note_opt c = Some (JStr ''All good''))"
  using createCheck_note [of "''test-uuid-1234''" 1769508000000
      "\<lparr>CreateCheckData.vehicleId = ''VH002'', odometerKm = 20000, items = mockCheckItems,
        note_val = JUndefined\<rparr>" mockStore]
    createCheck_note [of "''test-uuid-1234''" 1769508000000
      "\<lparr>CreateCheckData.vehicleId = ''VH001'', odometerKm = 15000, items = mockCheckItems,
        note_val = JStr ''All good''\<rparr>" mockStore]
  by (auto simp add: mockStore_def readChecks_def read_parse_def)

text \<open>
  The test is \<open>checkData.note !== undefined\<close>, so a note that is null (the validator lets
  it through, and the controller passes the request body on as it is) counts as supplied
  and is copied into the Check.
\<close>

lemma createCheck_null_note:
  "writable st \<Longrightarrow> note_val checkData = JNull \<Longrightarrow>
   \<exists>c st'. createCheck uuid now checkData st = Inr (c, st') \<and> note_opt c = Some JNull"
  by (simp add: createCheck_writable)

section \<open>Storage faults\<close>

text \<open>
  C3, as the specification states it, fails: on a checks file that cannot be read,
  readChecks does not raise; it returns the empty collection.
\<close>

theorem readChecks_swallows_fault:
  "read_parse (checks_file brokenStore) = Inl IOError \<and> readChecks brokenStore = Inr []"
  by (simp add: brokenStore_def read_parse_def readChecks_def)

text \<open>
  C3, amended. A failed write is propagated by writeChecks with the error it got, and is
  never turned into a success; a failed read is caught by readChecks, which returns the
  empty collection in its place, as its documentation says; readChecks never raises.
\<close>

theorem storage_fault_handling:
  "(write_file checks st = Inl e \<longrightarrow> writeChecks checks st = Inl e)
   \<and> (\<forall>st'. writeChecks checks st = Inr st' \<longrightarrow> write_file checks st = Inr st')
   \<and> (read_parse (checks_file st) = Inl e \<longrightarrow> readChecks st = Inr [])
   \<and> (\<forall>data. read_parse (checks_file st) = Inr data \<longrightarrow> readChecks st = Inr data)
   \<and> readChecks st \<noteq> Inl e'"
  by (auto simp add: writeChecks_def readChecks_def split: sum.splits)

theorem storage_fault_handling_witness:
  "write_file mockChecks brokenStore = Inl IOError
   \<and> writeChecks mockChecks brokenStore = Inl IOError
   \<and> read_parse (checks_file brokenStore) = Inl IOError
   \<and> readChecks brokenStore = Inr []
   \<and> read_parse (checks_file mockStore) = Inr mockChecks
   \<and> readChecks mockStore = Inr mockChecks"
  using storage_fault_handling [of mockChecks brokenStore IOError]
    storage_fault_handling [of mockChecks mockStore IOError]
  by (simp add: brokenStore_def mockStore_def write_file_def read_parse_def)

section \<open>getChecks\<close>

text \<open>
  The comparator orders by the instant, newest first, so the stable sort by it is the
  library's stable sort on the negated instant.
\<close>

lemma insert_by_createdAt:
  "insert_by (\<lambda>a b. createdAt b - createdAt a) x ys = insort_key (\<lambda>c. - createdAt c) x ys"
  by (induction ys) auto

lemma sort_by_createdAt:
  "sort_by (\<lambda>a b. createdAt b - createdAt a) xs = sort_key (\<lambda>c. - createdAt c) xs"
  by (induction xs) (simp_all add: sort_by_def sort_key_def insert_by_createdAt)

lemma getChecks_eq:
  "getChecks filters st =
     Inr (sort_key (\<lambda>c. - createdAt c)
       (filter (\<lambda>check. vehicleId check = CheckFilters.vehicleId filters
                  \<and> (case CheckFilters.hasIssue filters of None \<Rightarrow> True
                      | Some h \<Rightarrow> hasIssue check = h))
          (case checks_file st of None \<Rightarrow> [] | Some cs \<Rightarrow> cs)))"
  by (simp add: getChecks_def readChecks_def read_parse_def sort_by_createdAt Let_def
      split: option.splits)

lemma getChecks_matches:
  "getChecks filters st =
     Inr (sort_key (\<lambda>c. - createdAt c)
       (filter (matches filters) (case checks_file st of None \<Rightarrow> [] | Some cs \<Rightarrow> cs)))"
  unfolding getChecks_eq matches_def ..

lemma sorted_desc_sort_key:
  "sorted_wrt (\<lambda>a b. createdAt a \<ge> createdAt b) (sort_key (\<lambda>c. - createdAt c) xs)"
proof -
  have "sorted (map (\<lambda>c. - createdAt c) (sort_key (\<lambda>c. - createdAt c) xs))"
    by (rule sorted_sort_key)
  then show ?thesis
    by (simp add: sorted_map)
qed

text \<open>
  C6. On every store and for every vehicle id \<open>V\<close>, getChecks with hasIssue true returns
  the result of getChecks for \<open>V\<close> alone cut down to its checks with hasIssue true, in the
  same order; with hasIssue false it returns the other checks of that result; and the two
  results share no check and together hold every check of the unfiltered result once.
\<close>

theorem getChecks_hasIssue_partition:
  "\<exists>all. getChecks \<lparr>CheckFilters.vehicleId = V, hasIssue = None\<rparr> st = Inr all
     \<and> getChecks \<lparr>CheckFilters.vehicleId = V, hasIssue = Some True\<rparr> st
          = Inr (filter (\<lambda>c. hasIssue c) all)
     \<and> getChecks \<lparr>CheckFilters.vehicleId = V, hasIssue = Some False\<rparr> st
          = Inr (filter (\<lambda>c. \<not> hasIssue c) all)
     \<and> mset (filter (\<lambda>c. hasIssue c) all) + mset (filter (\<lambda>c. \<not> hasIssue c) all) = mset all
     \<and> set (filter (\<lambda>c. hasIssue c) all) \<inter> set (filter (\<lambda>c. \<not> hasIssue c) all) = {}"
  by (auto simp add: getChecks_eq filter_sort conj_commute)

theorem getChecks_hasIssue_partition_witness:
  "getChecks \<lparr>CheckFilters.vehicleId = ''VH001'', hasIssue = None\<rparr> mockStore
     = Inr [CHK002, CHK001]
   \<and> getChecks \<lparr>CheckFilters.vehicleId = ''VH001'', hasIssue = Some True\<rparr> mockStore
     = Inr [CHK002]
   \<and> getChecks \<lparr>CheckFilters.vehicleId = ''VH001'', hasIssue = Some False\<rparr> mockStore
     = Inr [CHK001]"
  using getChecks_hasIssue_partition [of "''VH001''" mockStore]
  by (simp add: getChecks_def mockStore_def mockChecks_def readChecks_def read_parse_def
      CHK001_def CHK002_def sort_by_def)

text \<open>
  C7. On every store and for every filter, getChecks returns a list and never an error.
  The list holds exactly the stored checks whose vehicleId equals the filter's and, when
  the filter gives hasIssue, whose hasIssue equals it, each as often as it is stored; for
  any two of its checks \<open>a\<close> before \<open>b\<close>, \<open>a\<close> was created at or after \<open>b\<close>; and it
  is empty when no stored check matches and when the store is empty.
\<close>

theorem getChecks_sorted:
  "\<exists>result checks. readChecks st = Inr checks \<and> getChecks filters st = Inr result
     \<and> mset result = mset (filter (matches filters) checks)
     \<and> sorted_wrt (\<lambda>a b. createdAt a \<ge> createdAt b) result
     \<and> ((\<forall>check \<in> set checks. \<not> matches filters check) \<longrightarrow> result = [])
     \<and> (checks = [] \<longrightarrow> result = [])"
proof -
  obtain checks where r: "readChecks st = Inr checks"
    and c: "checks = (case checks_file st of None \<Rightarrow> [] | Some cs \<Rightarrow> cs)"
    by (simp add: readChecks_def read_parse_def split: option.splits)
  let ?result = "sort_key (\<lambda>c. - createdAt c) (filter (matches filters) checks)"
  have g: "getChecks filters st = Inr ?result"
    by (simp add: getChecks_matches c)
  have "mset ?result = mset (filter (matches filters) checks)"
    by simp
  moreover have "sorted_wrt (\<lambda>a b. createdAt a \<ge> createdAt b) ?result"
    by (rule sorted_desc_sort_key)
  moreover have "(\<forall>check \<in> set checks. \<not> matches filters check) \<longrightarrow> ?result = []"
    by (simp add: filter_empty_conv sort_key_def)
  moreover have "checks = [] \<longrightarrow> ?result = []"
    by (simp add: sort_key_def)
  ultimately show ?thesis
    using r g by blast
qed

theorem getChecks_sorted_witness:
  "readChecks mockStore = Inr [CHK001, CHK002]
   \<and> getChecks \<lparr>CheckFilters.vehicleId = ''VH001'', hasIssue = None\<rparr> mockStore
        = Inr [CHK002, CHK001]
   \<and> createdAt CHK002 \<ge> createdAt CHK001
   \<and> getChecks \<lparr>CheckFilters.vehicleId = ''VH999'', hasIssue = None\<rparr> mockStore = Inr []"
  using getChecks_sorted [of mockStore "\<lparr>CheckFilters.vehicleId = ''VH001'', hasIssue = None\<rparr>"]
    getChecks_sorted [of mockStore "\<lparr>CheckFilters.vehicleId = ''VH999'', hasIssue = None\<rparr>"]
  by (simp add: getChecks_def mockStore_def mockChecks_def readChecks_def read_parse_def
      CHK001_def CHK002_def sort_by_def)

section \<open>deleteCheck\<close>

lemma length_filter_eq_iff:
  "length (filter P xs) = length xs \<longleftrightarrow> (\<forall>x \<in> set xs. P x)"
  by (metis filter_id_conv length_filter_less less_irrefl_nat)

lemma deleteCheck_cases:
  "deleteCheck checkId st =
     (let checks = (case checks_file st of None \<Rightarrow> [] | Some cs \<Rightarrow> cs) in
      if checkId \<notin> id_c ` set checks then Inr (False, st)
      else if writable st then
        Inr (True, st\<lparr>checks_file := Some (filter (\<lambda>check. id_c check \<noteq> checkId) checks),
                       writes := Suc (writes st)\<rparr>)
      else Inl IOError)"
  by (auto simp add: deleteCheck_def readChecks_def read_parse_def writeChecks_def write_file_def
      Let_def length_filter_eq_iff split: option.splits)

text \<open>
  C5. Whatever deleteCheck returns, it returns true exactly when the store held a check of
  that id before the call, and it does return whenever the store can be written. After it
  returned true the store holds the former checks without those of that id, no getChecks
  on the new store returns a check of that id, and a second deleteCheck of the id returns
  false. When it returns false the store is the one it was given: the file is unchanged
  and no write was done.
\<close>

theorem deleteCheck_removes:
  "(\<forall>b st'. deleteCheck checkId st = Inr (b, st') \<longrightarrow>
      (b \<longleftrightarrow> (\<exists>checks. checks_file st = Some checks \<and> checkId \<in> id_c ` set checks)))
   \<and> (\<forall>st'. deleteCheck checkId st = Inr (True, st') \<longrightarrow>
        (\<exists>checks. checks_file st = Some checks
           \<and> checks_file st' = Some (filter (\<lambda>check. id_c check \<noteq> checkId) checks))
        \<and> (\<forall>filters result. getChecks filters st' = Inr result \<longrightarrow> checkId \<notin> id_c ` set result)
        \<and> deleteCheck checkId st' = Inr (False, st'))
   \<and> (\<forall>st'. deleteCheck checkId st = Inr (False, st') \<longrightarrow>
        st' = st \<and> writes st' = writes st \<and> checks_file st' = checks_file st)
   \<and> (writable st \<longrightarrow> (\<exists>b st'. deleteCheck checkId st = Inr (b, st')))"
  by (auto simp add: deleteCheck_cases getChecks_matches Let_def split: option.splits if_splits)

theorem deleteCheck_removes_witness:
  "deleteCheck ''CHK001'' mockStore
     = Inr (True, mockStore\<lparr>checks_file := Some [CHK002], writes := 1\<rparr>)
   \<and> checks_file mockStore = Some [CHK001, CHK002]
   \<and> getChecks \<lparr>CheckFilters.vehicleId = ''VH001'', hasIssue = None\<rparr>
        (mockStore\<lparr>checks_file := Some [CHK002], writes := 1\<rparr>) = Inr [CHK002]
   \<and> deleteCheck ''CHK001'' (mockStore\<lparr>checks_file := Some [CHK002], writes := 1\<rparr>)
     = Inr (False, mockStore\<lparr>checks_file := Some [CHK002], writes := 1\<rparr>)
   \<and> deleteCheck ''NONEXISTENT'' mockStore = Inr (False, mockStore)
   \<and> writable mockStore"
  using deleteCheck_removes [of "''CHK001''" mockStore]
    deleteCheck_removes [of "''NONEXISTENT''" mockStore]
  by (simp add: deleteCheck_def getChecks_def mockStore_def mockChecks_def readChecks_def
      read_parse_def writeChecks_def write_file_def CHK001_def CHK002_def sort_by_def)

section \<open>The validator\<close>

lemma get_prop_nullish: "nullish v \<Longrightarrow> get_prop v name = Inl TypeError"
  by (auto simp add: nullish_def)

lemma get_prop_not_nullish: "\<not> nullish v \<Longrightarrow> \<exists>x. get_prop v name = Inr x"
  by (cases v) (auto simp add: nullish_def)

lemma get_prop_Inl_iff: "get_prop v name = Inl e \<longleftrightarrow> nullish v \<and> e = TypeError"
  by (cases v) (auto simp add: nullish_def)

lemma validate_item_nullish:
  "nullish item \<Longrightarrow> validate_item index item acc = Inl TypeError"
  by (auto simp add: validate_item_def get_prop_nullish split: prod.splits)

lemma validate_item_acc:
  assumes "\<not> nullish item"
  shows "validate_item index item (errors, keys) =
           Inr (errors @ item_errors index item, item_keys item \<union> keys)"
proof -
  obtain k where k: "get_prop item ''key'' = Inr k"
    using assms get_prop_not_nullish by blast
  obtain s where s: "get_prop item ''status'' = Inr s"
    using assms get_prop_not_nullish by blast
  show ?thesis
    by (simp add: validate_item_def item_errors_def item_keys_def k s Let_def)
qed

lemma forEach_item_throws:
  "\<exists>item \<in> set its. nullish item \<Longrightarrow> forEach_item index its acc = Inl TypeError"
proof (induction its arbitrary: index acc)
  case Nil
  then show ?case by simp
next
  case (Cons item rest)
  show ?case
  proof (cases "nullish item")
    case True
    then show ?thesis by (simp add: validate_item_nullish)
  next
    case False
    with Cons.prems have "\<exists>item \<in> set rest. nullish item" by auto
    then show ?thesis
      using Cons.IH False by (cases acc) (simp add: validate_item_acc)
  qed
qed

lemma forEach_item_closed:
  "\<forall>item \<in> set its. \<not> nullish item \<Longrightarrow>
   forEach_item index its (errors, keys) =
     Inr (errors @ concat (map (\<lambda>(i, item). item_errors i item)
                            (zip [index ..< index + length its] its)),
          (\<Union>item \<in> set its. item_keys item) \<union> keys)"
proof (induction its arbitrary: index errors keys)
  case Nil
  then show ?case by simp
next
  case (Cons item rest)
  have u: "[index ..< index + length (item # rest)]
             = index # [Suc index ..< Suc index + length rest]"
    by (subst upt_rec) simp
  have "forEach_item index (item # rest) (errors, keys)
          = forEach_item (Suc index) rest
              (errors @ item_errors index item, item_keys item \<union> keys)"
    using Cons.prems by (simp add: validate_item_acc)
  also have "\<dots> = Inr ((errors @ item_errors index item) @
                         concat (map (\<lambda>(i, item). item_errors i item)
                            (zip [Suc index ..< Suc index + length rest] rest)),
                       (\<Union>item \<in> set rest. item_keys item) \<union> (item_keys item \<union> keys))"
    using Cons.prems by (intro Cons.IH) simp
  finally show ?case
    unfolding u by (simp add: Un_assoc Un_left_commute Un_commute)
qed


lemma vehicleExists_total:
  "vehicleExists st s =
     Inr (list_ex (\<lambda>v. id_v v = s) (case vehicles_file st of None \<Rightarrow> [] | Some vs \<Rightarrow> vs))"
  by (simp add: vehicleExists_def readVehicles_def read_parse_def split: option.splits)

lemma validate_vehicleId_app:
  assumes "\<not> nullish body"
  shows "validate_vehicleId st body errors = Inr (errors @ vehicleId_errors st body)"
proof -
  obtain v where v: "get_prop body ''vehicleId'' = Inr v"
    using assms get_prop_not_nullish by blast
  show ?thesis
    by (simp add: validate_vehicleId_def vehicleId_errors_def v vehicleExists_total
        split: jsval.splits)
qed

lemma validate_odometerKm_app:
  assumes "\<not> nullish body"
  shows "validate_odometerKm body errors = Inr (errors @ odometerKm_errors body)"
proof -
  obtain v where v: "get_prop body ''odometerKm'' = Inr v"
    using assms get_prop_not_nullish by blast
  show ?thesis
    by (simp add: validate_odometerKm_def odometerKm_errors_def v split: jsval.splits)
qed

lemma validate_note_app:
  assumes "\<not> nullish body"
  shows "validate_note body errors = Inr (errors @ note_errors body)"
proof -
  obtain v where v: "get_prop body ''note'' = Inr v"
    using assms get_prop_not_nullish by blast
  show ?thesis
    by (simp add: validate_note_def note_errors_def v split: jsval.splits)
qed

lemma missing_keys_app:
  "missing_keys ks keys errors = errors @ missing_keys ks keys []"
proof (induction ks arbitrary: errors)
  case Nil
  then show ?case by simp
next
  case (Cons k ks)
  show ?case
    using Cons.IH [of "errors @ [err ''items'' (''missing required key: '' @ k)]"]
      Cons.IH [of "[err ''items'' (''missing required key: '' @ k)]"] Cons.IH [of errors]
    by simp
qed

lemma missing_keys_field:
  "\<forall>e \<in> set errors. field e = ''items'' \<Longrightarrow>
   \<forall>e \<in> set (missing_keys ks keys errors). field e = ''items''"
proof (induction ks arbitrary: errors)
  case Nil
  then show ?case by simp
next
  case (Cons k ks)
  show ?case
  proof (cases "JStr k \<in> keys")
    case True
    then show ?thesis
      using Cons.IH [OF Cons.prems] by simp
  next
    case False
    have "\<forall>e \<in> set (errors @ [err ''items'' (''missing required key: '' @ k)]).
            field e = ''items''"
      using Cons.prems by (simp add: err_def)
    from Cons.IH [OF this] show ?thesis
      using False by simp
  qed
qed

lemma validate_items_raises:
  assumes "get_prop body ''items'' = Inr (JArr its)" and "\<exists>item \<in> set its. nullish item"
  shows "validate_items body errors = Inl TypeError"
  using assms by (simp add: validate_items_def forEach_item_throws Let_def)

text \<open>The errors of the items block when items is an array without null and undefined.\<close>

lemma validate_items_array:
  assumes "get_prop body ''items'' = Inr (JArr its)" and "\<forall>item \<in> set its. \<not> nullish item"
  shows "validate_items body errors =
     Inr (errors
          @ (if length its \<noteq> 5 then [err ''items'' ''must contain exactly 5 items''] else [])
          @ concat (map (\<lambda>(i, item). item_errors i item) (zip [0 ..< length its] its))
          @ (if length its = 5 \<and> card (\<Union>item \<in> set its. item_keys item) \<noteq> 5
             then [err ''items'' ''must contain all 5 keys exactly once (no duplicates)'']
             else [])
          @ missing_keys VALID_KEYS (\<Union>item \<in> set its. item_keys item) [])"
proof -
  let ?K = "\<Union>item \<in> set its. item_keys item"
  let ?L = "if length its \<noteq> 5 then [err ''items'' ''must contain exactly 5 items''] else []"
  let ?C = "concat (map (\<lambda>(i, item). item_errors i item) (zip [0 ..< length its] its))"
  let ?D = "if length its = 5 \<and> card ?K \<noteq> 5
            then [err ''items'' ''must contain all 5 keys exactly once (no duplicates)'']
            else []"
  have fe: "\<And>es. forEach_item 0 its (es, {}) = Inr (es @ ?C, ?K)"
    using forEach_item_closed [OF assms(2), of 0 _ "{}"] by simp
  have mk: "\<And>es. missing_keys VALID_KEYS ?K es = es @ missing_keys VALID_KEYS ?K []"
    by (rule missing_keys_app)
  show ?thesis
  proof (cases "length its = 5")
    case True
    then show ?thesis
      by (simp add: validate_items_def assms(1) Let_def fe mk [of "_ @ _"])
  next
    case False
    then show ?thesis
      by (simp add: validate_items_def assms(1) Let_def fe mk [of "_ @ _"])
  qed
qed

lemma validate_items_other:
  assumes "get_prop body ''items'' = Inr v" and "\<forall>its. v \<noteq> JArr its"
  shows "\<exists>new. (\<forall>errors. validate_items body errors = Inr (errors @ new))
           \<and> (\<forall>e \<in> set new. field e = ''items'')"
proof (cases "truthy v")
  case False
  then show ?thesis
    using assms by (intro exI [of _ "[err ''items'' ''is required'']"])
      (simp add: validate_items_def err_def)
next
  case True
  then show ?thesis
    using assms by (intro exI [of _ "[err ''items'' ''must be an array'']"])
      (auto simp add: validate_items_def err_def split: jsval.splits)
qed

lemma validate_items_app:
  assumes "\<not> raises body"
  shows "validate_items body errors = Inr (errors @ items_errors body)"
proof -
  have nn: "\<not> nullish body" using assms by (simp add: raises_def)
  obtain v where v: "get_prop body ''items'' = Inr v"
    using nn get_prop_not_nullish by blast
  show ?thesis
  proof (cases "\<exists>its. v = JArr its")
    case True
    then obtain its where its: "v = JArr its" by blast
    with v assms have ok: "\<forall>item \<in> set its. \<not> nullish item"
      by (auto simp add: raises_def)
    show ?thesis
      using v its ok by (simp add: items_errors_def validate_items_array)
  next
    case False
    then obtain new where "\<forall>errors. validate_items body errors = Inr (errors @ new)"
      using validate_items_other [OF v] by blast
    then show ?thesis
      by (simp add: items_errors_def)
  qed
qed

lemma validateCheckRequest_raises:
  "raises body \<Longrightarrow> validateCheckRequest st body = Inl TypeError"
proof (cases "nullish body")
  case True
  then show ?thesis
    by (simp add: validateCheckRequest_def validate_vehicleId_def get_prop_nullish)
next
  case False
  assume "raises body"
  with False obtain its where "get_prop body ''items'' = Inr (JArr its)"
    and "\<exists>item \<in> set its. nullish item"
    by (auto simp add: raises_def)
  then show ?thesis
    using False
    by (simp add: validateCheckRequest_def validate_vehicleId_app validate_odometerKm_app
        validate_items_raises)
qed

lemma validateCheckRequest_returns:
  "\<not> raises body \<Longrightarrow>
   validateCheckRequest st body =
     Inr (vehicleId_errors st body @ odometerKm_errors body @ items_errors body
          @ note_errors body)"
proof -
  assume r: "\<not> raises body"
  then have nn: "\<not> nullish body" by (simp add: raises_def)
  show ?thesis
    using nn r
    by (simp add: validateCheckRequest_def validate_vehicleId_app validate_odometerKm_app
        validate_items_app validate_note_app)
qed


subsection \<open>Field paths\<close>

lemma less_10_cases:
  "(d::nat) < 10 \<Longrightarrow>
   d = 0 \<or> d = 1 \<or> d = 2 \<or> d = 3 \<or> d = 4 \<or> d = 5 \<or> d = 6 \<or> d = 7 \<or> d = 8 \<or> d = 9"
  by arith

lemma of_char_digit_char: "d < 10 \<Longrightarrow> of_char (digit_char d) = 48 + d"
  by (drule less_10_cases) (auto simp add: digit_char_def)

lemma digit_char_not_bracket: "d < 10 \<Longrightarrow> digit_char d \<noteq> CHR '']''"
proof
  assume d: "d < 10" and "digit_char d = CHR '']''"
  then have "of_char (digit_char d) = (of_char (CHR '']'') :: nat)" by simp
  then show False using d by (simp add: of_char_digit_char)
qed

lemma bracket_notin_string_of_nat: "CHR '']'' \<notin> set (string_of_nat n)"
proof (induction n rule: string_of_nat.induct)
  case (1 n)
  show ?case
  proof (cases "n < 10")
    case True
    then show ?thesis
      using digit_char_not_bracket [of n] by (subst string_of_nat.simps) auto
  next
    case False
    then show ?thesis
      using "1.IH" digit_char_not_bracket [of "n mod 10"]
      by (subst string_of_nat.simps) auto
  qed
qed

lemma nat_of_string_of_nat:
  "foldl (\<lambda>a c. 10 * a + (of_char c - 48)) 0 (string_of_nat n) = n"
proof (induction n rule: string_of_nat.induct)
  case (1 n)
  show ?case
  proof (cases "n < 10")
    case True
    then show ?thesis
      by (subst string_of_nat.simps) (simp add: of_char_digit_char)
  next
    case False
    then show ?thesis
      using "1.IH" by (subst string_of_nat.simps) (simp add: of_char_digit_char)
  qed
qed

lemma string_of_nat_inj: "string_of_nat m = string_of_nat n \<Longrightarrow> m = n"
  by (metis nat_of_string_of_nat)

lemma item_field_inj:
  assumes "CHR '']'' \<notin> set n"
  shows "item_field i n = item_field j m \<longleftrightarrow> i = j \<and> n = m"
proof
  assume "item_field i n = item_field j m"
  then have "string_of_nat i @ CHR '']'' # (CHR ''.'' # n)
               = string_of_nat j @ CHR '']'' # (CHR ''.'' # m)"
    by (simp add: item_field_def)
  moreover have "CHR '']'' \<notin> set (CHR ''.'' # n)"
    using assms by simp
  ultimately have "string_of_nat i = string_of_nat j \<and> CHR ''.'' # n = CHR ''.'' # m"
    using append_Cons_eq_iff [OF bracket_notin_string_of_nat [of i], of "CHR ''.'' # n"
        "string_of_nat j" "CHR ''.'' # m"]
    by simp
  then show "i = j \<and> n = m"
    by (auto dest: string_of_nat_inj)
next
  assume "i = j \<and> n = m"
  then show "item_field i n = item_field j m" by simp
qed

lemma item_field_key_status_inj [simp]:
  "item_field i ''key'' = item_field j ''key'' \<longleftrightarrow> i = j"
  "item_field i ''status'' = item_field j ''status'' \<longleftrightarrow> i = j"
  "item_field i ''key'' \<noteq> item_field j ''status''"
  "item_field i ''status'' \<noteq> item_field j ''key''"
  by (simp_all add: item_field_inj)

lemma item_field_not_top [simp]:
  "item_field i n \<noteq> ''items''" "item_field i n \<noteq> ''vehicleId''"
  "item_field i n \<noteq> ''odometerKm''" "item_field i n \<noteq> ''note''"
  "''items'' \<noteq> item_field i n" "''vehicleId'' \<noteq> item_field i n"
  "''odometerKm'' \<noteq> item_field i n" "''note'' \<noteq> item_field i n"
  by (simp_all add: item_field_def)

subsection \<open>What each block pushes\<close>

lemma item_errors_eq:
  assumes "get_prop item ''key'' = Inr k" and "get_prop item ''status'' = Inr s"
  shows "item_errors index item =
     (if \<not> truthy k then [err (item_field index ''key'') ''is required'']
      else if \<not> includes_str VALID_KEYS k then
        [err (item_field index ''key'') (''must be one of: '' @ join '', '' VALID_KEYS)]
      else [])
     @ (if \<not> truthy s then [err (item_field index ''status'') ''is required'']
        else if \<not> includes_str VALID_STATUSES s then
          [err (item_field index ''status'') (''must be one of: '' @ join '', '' VALID_STATUSES)]
        else [])"
  by (simp add: item_errors_def validate_item_def assms Let_def)

lemma item_errors_field:
  assumes "\<not> nullish item" and "e \<in> set (item_errors index item)"
  shows "field e = item_field index ''key'' \<or> field e = item_field index ''status''"
proof -
  obtain k s where "get_prop item ''key'' = Inr k" "get_prop item ''status'' = Inr s"
    using assms(1) get_prop_not_nullish by blast
  then show ?thesis
    using assms(2) by (auto simp add: item_errors_eq err_def split: if_splits)
qed

lemma item_errors_empty_key:
  assumes "get_prop item ''key'' = Inr (JStr [])"
  shows "err (item_field index ''key'') ''is required'' \<in> set (item_errors index item)"
    and "e \<in> set (item_errors index item) \<Longrightarrow> field e = item_field index ''key''
           \<Longrightarrow> reason e = ''is required''"
proof -
  have "\<not> nullish item"
    using assms by (auto simp add: get_prop_nullish)
  then obtain s where s: "get_prop item ''status'' = Inr s"
    using get_prop_not_nullish by blast
  show "err (item_field index ''key'') ''is required'' \<in> set (item_errors index item)"
    by (simp add: item_errors_eq [OF assms s])
  show "e \<in> set (item_errors index item) \<Longrightarrow> field e = item_field index ''key''
           \<Longrightarrow> reason e = ''is required''"
    by (auto simp add: item_errors_eq [OF assms s] err_def split: if_splits)
qed

lemma item_errors_empty_status:
  assumes "get_prop item ''status'' = Inr (JStr [])"
  shows "err (item_field index ''status'') ''is required'' \<in> set (item_errors index item)"
    and "e \<in> set (item_errors index item) \<Longrightarrow> field e = item_field index ''status''
           \<Longrightarrow> reason e = ''is required''"
proof -
  have "\<not> nullish item"
    using assms by (auto simp add: get_prop_nullish)
  then obtain k where k: "get_prop item ''key'' = Inr k"
    using get_prop_not_nullish by blast
  show "err (item_field index ''status'') ''is required'' \<in> set (item_errors index item)"
    by (simp add: item_errors_eq [OF k assms])
  show "e \<in> set (item_errors index item) \<Longrightarrow> field e = item_field index ''status''
           \<Longrightarrow> reason e = ''is required''"
    by (auto simp add: item_errors_eq [OF k assms] err_def split: if_splits)
qed

lemma item_keys_eq:
  assumes "get_prop item ''key'' = Inr k" and "\<not> nullish item"
  shows "item_keys item = (if truthy k \<and> includes_str VALID_KEYS k then {k} else {})"
proof -
  obtain s where s: "get_prop item ''status'' = Inr s"
    using assms(2) get_prop_not_nullish by blast
  show ?thesis
    by (simp add: item_keys_def validate_item_def assms(1) s Let_def)
qed

lemma set_concat_zip:
  "set (concat (map (\<lambda>(i, item). f i item) (zip [0 ..< length its] its)))
     = (\<Union>j < length its. set (f j (its ! j)))"
proof (intro set_eqI iffI)
  fix e
  assume "e \<in> set (concat (map (\<lambda>(i, item). f i item) (zip [0 ..< length its] its)))"
  then obtain a b where ab: "(a, b) \<in> set (zip [0 ..< length its] its)" and e: "e \<in> set (f a b)"
    by auto
  from ab obtain n where "[0 ..< length its] ! n = a" "its ! n = b" "n < length its"
    by (auto simp add: in_set_zip)
  then show "e \<in> (\<Union>j < length its. set (f j (its ! j)))"
    using e by auto
next
  fix e
  assume "e \<in> (\<Union>j < length its. set (f j (its ! j)))"
  then obtain j where j: "j < length its" and e: "e \<in> set (f j (its ! j))"
    by auto
  have "(j, its ! j) \<in> set (zip [0 ..< length its] its)"
    using j by (simp add: in_set_zip) (rule exI [of _ j], simp)
  then show "e \<in> set (concat (map (\<lambda>(i, item). f i item) (zip [0 ..< length its] its)))"
    using e by auto
qed

lemma vehicleId_errors_field: "\<forall>e \<in> set (vehicleId_errors st body). field e = ''vehicleId''"
  by (auto simp add: vehicleId_errors_def validate_vehicleId_def vehicleExists_total err_def
      split: sum.splits jsval.splits if_splits)

lemma odometerKm_errors_field: "\<forall>e \<in> set (odometerKm_errors body). field e = ''odometerKm''"
  by (auto simp add: odometerKm_errors_def validate_odometerKm_def err_def
      split: sum.splits jsval.splits if_splits)

lemma note_errors_field: "\<forall>e \<in> set (note_errors body). field e = ''note''"
  by (auto simp add: note_errors_def validate_note_def err_def
      split: sum.splits jsval.splits if_splits)

lemma items_errors_array:
  assumes "get_prop body ''items'' = Inr (JArr its)" and "\<forall>item \<in> set its. \<not> nullish item"
  shows "items_errors body =
     (if length its \<noteq> 5 then [err ''items'' ''must contain exactly 5 items''] else [])
     @ concat (map (\<lambda>(i, item). item_errors i item) (zip [0 ..< length its] its))
     @ (if length its = 5 \<and> card (\<Union>item \<in> set its. item_keys item) \<noteq> 5
        then [err ''items'' ''must contain all 5 keys exactly once (no duplicates)'']
        else [])
     @ missing_keys VALID_KEYS (\<Union>item \<in> set its. item_keys item) []"
  by (simp add: items_errors_def validate_items_array [OF assms])

lemma set_items_errors_array:
  assumes "get_prop body ''items'' = Inr (JArr its)" and "\<forall>item \<in> set its. \<not> nullish item"
  shows "set (items_errors body) =
     set (if length its \<noteq> 5 then [err ''items'' ''must contain exactly 5 items''] else [])
     \<union> ((\<Union>j < length its. set (item_errors j (its ! j)))
     \<union> (set (if length its = 5 \<and> card (\<Union>item \<in> set its. item_keys item) \<noteq> 5
        then [err ''items'' ''must contain all 5 keys exactly once (no duplicates)'']
        else [])
     \<union> set (missing_keys VALID_KEYS (\<Union>item \<in> set its. item_keys item) [])))"
  by (simp only: items_errors_array [OF assms] set_append set_concat_zip)

lemma items_errors_members:
  assumes "get_prop body ''items'' = Inr (JArr its)" and "\<forall>item \<in> set its. \<not> nullish item"
    and "e \<in> set (items_errors body)"
  shows "field e = ''items'' \<or> (\<exists>j < length its. e \<in> set (item_errors j (its ! j)))"
proof -
  have m: "\<forall>e \<in> set (missing_keys VALID_KEYS (\<Union>item \<in> set its. item_keys item) []).
             field e = ''items''"
    by (rule missing_keys_field) simp
  show ?thesis
    using assms(3) m unfolding set_items_errors_array [OF assms(1,2)]
    by (auto simp add: err_def split: if_splits)
qed

lemma item_errors_subset:
  assumes "get_prop body ''items'' = Inr (JArr its)" and "\<forall>item \<in> set its. \<not> nullish item"
    and "j < length its"
  shows "set (item_errors j (its ! j)) \<subseteq> set (items_errors body)"
  using assms(3) unfolding set_items_errors_array [OF assms(1,2)]
  by blast

lemma items_errors_not_array:
  assumes "get_prop body ''items'' = Inr v" and "\<forall>its. v \<noteq> JArr its"
  shows "\<forall>e \<in> set (items_errors body). field e = ''items''"
proof -
  obtain new where n: "\<forall>errors. validate_items body errors = Inr (errors @ new)"
    and f: "\<forall>e \<in> set new. field e = ''items''"
    using validate_items_other [OF assms] by blast
  from n have "validate_items body [] = Inr new" by (metis append_Nil)
  then show ?thesis
    using f by (simp add: items_errors_def)
qed


text \<open>Unfolding the validator and the fixtures, to run it on a concrete body.\<close>

lemmas validator_defs = validateCheckRequest_def validate_vehicleId_def validate_odometerKm_def
  validate_items_def validate_note_def validate_item_def vehicleExists_def readVehicles_def
  read_parse_def includes_str_def VALID_KEYS_def VALID_STATUSES_def err_def item_field_def
  mockStore_def mockVehicles_def

text \<open>
  C4, as the specification states it, fails: on the payloads null and undefined the first
  property read, \<open>body.vehicleId\<close>, throws a TypeError, and so does \<open>item.key\<close> on a
  null element of items.
\<close>

theorem validateCheckRequest_null_raises:
  "validateCheckRequest mockStore JNull = Inl TypeError
   \<and> validateCheckRequest mockStore JUndefined = Inl TypeError
   \<and> validateCheckRequest mockStore (JObj [(''items'', JArr [JNull])]) = Inl TypeError"
  by (simp add: validateCheckRequest_def validate_vehicleId_def validate_odometerKm_def
      validate_items_def validate_item_def)

text \<open>
  C4, amended. validateCheckRequest returns a list of errors on every payload but these:
  null, undefined, and a payload whose items is an array with a null or undefined
  element; on these it throws a TypeError. On the empty object it returns one error for
  each of vehicleId, odometerKm and items, so it does not stop at the first failing field.
\<close>

theorem validateCheckRequest_returns_or_raises:
  "(raises body \<longrightarrow> validateCheckRequest st body = Inl TypeError)
   \<and> (\<not> raises body \<longrightarrow> (\<exists>errors. validateCheckRequest st body = Inr errors))
   \<and> validateCheckRequest st (JObj []) =
       Inr [err ''vehicleId'' ''is required'', err ''odometerKm'' ''is required'',
            err ''items'' ''is required'']"
proof (intro conjI impI)
  assume "raises body"
  then show "validateCheckRequest st body = Inl TypeError"
    by (rule validateCheckRequest_raises)
next
  assume "\<not> raises body"
  then show "\<exists>errors. validateCheckRequest st body = Inr errors"
    by (simp add: validateCheckRequest_returns)
next
  show "validateCheckRequest st (JObj []) =
       Inr [err ''vehicleId'' ''is required'', err ''odometerKm'' ''is required'',
            err ''items'' ''is required'']"
    by (simp add: validateCheckRequest_def validate_vehicleId_def validate_odometerKm_def
        validate_items_def validate_note_def)
qed

theorem validateCheckRequest_returns_or_raises_witness:
  "raises JNull \<and> validateCheckRequest mockStore JNull = Inl TypeError
   \<and> \<not> raises (JNum (Fin 3))
   \<and> validateCheckRequest mockStore (JNum (Fin 3)) =
       Inr [err ''vehicleId'' ''is required'', err ''odometerKm'' ''is required'',
            err ''items'' ''is required'']"
  using validateCheckRequest_returns_or_raises [of JNull mockStore]
    validateCheckRequest_returns_or_raises [of "JNum (Fin 3)" mockStore]
  by (simp add: raises_def nullish_def validateCheckRequest_def validate_vehicleId_def
      validate_odometerKm_def validate_items_def validate_note_def)

subsection \<open>null note\<close>

lemma map_of_filter_other:
  "name \<noteq> k \<Longrightarrow> map_of (filter (\<lambda>p. fst p \<noteq> k) ps) name = map_of ps name"
  by (induction ps) auto

lemma map_of_filter_same: "map_of (filter (\<lambda>p. fst p \<noteq> k) ps) k = None"
  by (induction ps) auto

text \<open>
  C9. A payload whose note is null and which is valid otherwise, that is, valid once the
  note property is left out, gets the empty error list: the note rules are skipped for
  null as they are for a note that is not there.
\<close>

theorem null_note_accepted:
  assumes "map_of ps ''note'' = Some JNull"
    and "validateCheckRequest st (JObj (filter (\<lambda>p. fst p \<noteq> ''note'') ps)) = Inr []"
  shows "validateCheckRequest st (JObj ps) = Inr []"
proof -
  let ?ps' = "filter (\<lambda>p. fst p \<noteq> ''note'') ps"
  have v: "validate_vehicleId st (JObj ps) = validate_vehicleId st (JObj ?ps')"
    by (simp add: validate_vehicleId_def map_of_filter_other fun_eq_iff)
  have odo: "validate_odometerKm (JObj ps) = validate_odometerKm (JObj ?ps')"
    by (simp add: validate_odometerKm_def map_of_filter_other fun_eq_iff)
  have i: "validate_items (JObj ps) = validate_items (JObj ?ps')"
    by (simp add: validate_items_def map_of_filter_other fun_eq_iff)
  have n: "validate_note (JObj ps) = validate_note (JObj ?ps')"
    using assms(1) by (simp add: validate_note_def map_of_filter_same fun_eq_iff)
  have "validateCheckRequest st (JObj ps) = validateCheckRequest st (JObj ?ps')"
    unfolding validateCheckRequest_def v odo i n ..
  then show ?thesis
    using assms(2) by simp
qed


theorem null_note_accepted_witness:
  "map_of nullNoteBody ''note'' = Some JNull
   \<and> validateCheckRequest mockStore (JObj (filter (\<lambda>p. fst p \<noteq> ''note'') nullNoteBody)) = Inr []
   \<and> validateCheckRequest mockStore (JObj nullNoteBody) = Inr []"
  using null_note_accepted [of nullNoteBody mockStore]
  by (simp add: validator_defs nullNoteBody_def validItems_def)

subsection \<open>The distinct-key count\<close>

lemma item_keys_subset:
  assumes "\<not> nullish item"
  shows "item_keys item \<subseteq> {case get_prop item ''key'' of Inr k \<Rightarrow> k | Inl e \<Rightarrow> JUndefined}"
proof -
  obtain k where k: "get_prop item ''key'' = Inr k"
    using assms get_prop_not_nullish by blast
  show ?thesis
    by (simp add: item_keys_eq [OF k assms] k)
qed

lemma card_keys_less:
  assumes ok: "\<forall>item \<in> set its. \<not> nullish item"
    and bad: "bad \<in> set its" and empty: "item_keys bad = {}"
  shows "card (\<Union>item \<in> set its. item_keys item) < length its"
proof -
  let ?keyof = "\<lambda>item. case get_prop item ''key'' of Inr k \<Rightarrow> k | Inl e \<Rightarrow> JUndefined"
  have "(\<Union>item \<in> set its. item_keys item) = (\<Union>item \<in> set its - {bad}. item_keys item)"
    using empty by auto
  also have "\<dots> \<subseteq> ?keyof ` (set its - {bad})"
    using ok item_keys_subset by fastforce
  finally have "card (\<Union>item \<in> set its. item_keys item) \<le> card (?keyof ` (set its - {bad}))"
    by (intro card_mono) auto
  also have "\<dots> \<le> card (set its - {bad})"
    by (intro card_image_le) simp
  also have "\<dots> < card (set its)"
    using bad by (intro psubset_card_mono) auto
  also have "\<dots> \<le> length its"
    by (rule card_length)
  finally show ?thesis .
qed

text \<open>
  C10. Let items be an array of five elements, each with a key that can be read (no
  element is null or undefined), the keys pairwise distinct, and at least one key outside
  the five-key enumeration. Then the validator returns, and its errors include the
  set-level error about duplicates: only keys that pass the membership test are added to
  the set whose size is compared with 5. (The proof does not use that the keys are
  distinct.)
\<close>

theorem invalid_key_reported_as_duplicate:
  assumes items: "get_prop body ''items'' = Inr (JArr its)"
    and len: "length its = 5"
    and keys: "\<forall>item \<in> set its. \<exists>k. get_prop item ''key'' = Inr k"
    and dist: "distinct (map (\<lambda>item. get_prop item ''key'') its)"
    and bad: "\<exists>item \<in> set its. \<exists>k. get_prop item ''key'' = Inr k \<and> \<not> includes_str VALID_KEYS k"
  shows "\<exists>errors. validateCheckRequest st body = Inr errors
     \<and> err ''items'' ''must contain all 5 keys exactly once (no duplicates)'' \<in> set errors"
proof -
  have ok: "\<forall>item \<in> set its. \<not> nullish item"
    using keys by (auto simp add: get_prop_nullish)
  have nn: "\<not> nullish body"
    using items by (auto simp add: get_prop_nullish)
  have r: "\<not> raises body"
    using nn ok items by (auto simp add: raises_def)
  obtain b k where b: "b \<in> set its" and k: "get_prop b ''key'' = Inr k"
    and nk: "\<not> includes_str VALID_KEYS k"
    using bad by blast
  have "item_keys b = {}"
    using item_keys_eq [OF k] ok b nk by simp
  then have "card (\<Union>item \<in> set its. item_keys item) < length its"
    using card_keys_less [OF ok b] by simp
  then have "card (\<Union>item \<in> set its. item_keys item) \<noteq> 5"
    using len by simp
  then have "err ''items'' ''must contain all 5 keys exactly once (no duplicates)''
               \<in> set (items_errors body)"
    unfolding set_items_errors_array [OF items ok] using len by simp
  then show ?thesis
    by (simp add: validateCheckRequest_returns [OF r])
qed


theorem invalid_key_reported_as_duplicate_witness:
  "get_prop wipersBody ''items'' = Inr (JArr wipersItems)
   \<and> length wipersItems = 5
   \<and> distinct (map (\<lambda>item. get_prop item ''key'') wipersItems)
   \<and> get_prop (wipersItems ! 4) ''key'' = Inr (JStr ''WIPERS'')
   \<and> \<not> includes_str VALID_KEYS (JStr ''WIPERS'')
   \<and> (\<exists>errors. validateCheckRequest mockStore wipersBody = Inr errors
        \<and> err ''items'' ''must contain all 5 keys exactly once (no duplicates)'' \<in> set errors)"
  using invalid_key_reported_as_duplicate [of wipersBody wipersItems mockStore]
  by (simp add: wipersBody_def wipersItems_def includes_str_def VALID_KEYS_def)

subsection \<open>Empty strings count as missing\<close>

lemma vehicleId_errors_empty:
  "get_prop body ''vehicleId'' = Inr (JStr []) \<Longrightarrow>
   vehicleId_errors st body = [err ''vehicleId'' ''is required'']"
  by (simp add: vehicleId_errors_def validate_vehicleId_def)

lemma items_errors_field:
  assumes "\<not> raises body" and "e \<in> set (items_errors body)"
  shows "field e = ''items''
     \<or> (\<exists>its j. get_prop body ''items'' = Inr (JArr its) \<and> j < length its
           \<and> e \<in> set (item_errors j (its ! j)))"
proof -
  have nn: "\<not> nullish body" using assms(1) by (simp add: raises_def)
  obtain v where v: "get_prop body ''items'' = Inr v"
    using nn get_prop_not_nullish by blast
  show ?thesis
  proof (cases "\<exists>its. v = JArr its")
    case True
    then obtain its where its: "v = JArr its" by blast
    with v assms(1) have ok: "\<forall>item \<in> set its. \<not> nullish item"
      by (auto simp add: raises_def)
    show ?thesis
      using items_errors_members [OF v [unfolded its] ok assms(2)] v its by auto
  next
    case False
    then show ?thesis
      using items_errors_not_array [OF v] assms(2) by auto
  qed
qed

text \<open>
  C8, as stated for every payload whose vehicleId is the empty string, fails: when items
  holds a null element the validator throws and reports nothing.
\<close>

theorem empty_vehicleId_null_item_raises:
  "get_prop nullItemBody ''vehicleId'' = Inr (JStr [])
   \<and> validateCheckRequest mockStore nullItemBody = Inl TypeError"
  by (simp add: nullItemBody_def validator_defs)

text \<open>
  C8, amended. On every payload on which the validator does not throw (see C4) it returns
  a list such that: when vehicleId is the empty string, the list has the error
  (vehicleId, is required) and no other error on vehicleId, so neither the string test
  nor the vehicle lookup has left a trace; and when \<open>items[i].key\<close>
  (\<open>items[i].status\<close>) is the empty string, the list has the error (items[i].key, is
  required) (for status likewise) and no other error on that field.
\<close>

theorem empty_string_is_missing:
  assumes "\<not> raises body"
  shows "\<exists>errors. validateCheckRequest st body = Inr errors
    \<and> (get_prop body ''vehicleId'' = Inr (JStr []) \<longrightarrow>
         err ''vehicleId'' ''is required'' \<in> set errors
         \<and> (\<forall>e \<in> set errors. field e = ''vehicleId'' \<longrightarrow> reason e = ''is required''))
    \<and> (\<forall>its i. get_prop body ''items'' = Inr (JArr its) \<and> i < length its \<longrightarrow>
         (get_prop (its ! i) ''key'' = Inr (JStr []) \<longrightarrow>
            err (item_field i ''key'') ''is required'' \<in> set errors
            \<and> (\<forall>e \<in> set errors. field e = item_field i ''key'' \<longrightarrow> reason e = ''is required''))
         \<and> (get_prop (its ! i) ''status'' = Inr (JStr []) \<longrightarrow>
            err (item_field i ''status'') ''is required'' \<in> set errors
            \<and> (\<forall>e \<in> set errors. field e = item_field i ''status'' \<longrightarrow>
                  reason e = ''is required'')))"
proof -
  let ?errors = "vehicleId_errors st body @ odometerKm_errors body @ items_errors body
                 @ note_errors body"
  have ret: "validateCheckRequest st body = Inr ?errors"
    by (rule validateCheckRequest_returns [OF assms])
  have mem: "e \<in> set ?errors \<longleftrightarrow> e \<in> set (vehicleId_errors st body)
      \<or> e \<in> set (odometerKm_errors body) \<or> e \<in> set (items_errors body)
      \<or> e \<in> set (note_errors body)" for e
    by auto
  have item_not_vid: "field e \<noteq> ''vehicleId''" if "e \<in> set (items_errors body)" for e
  proof -
    from items_errors_field [OF assms that] show ?thesis
    proof
      assume "field e = ''items''"
      then show ?thesis by simp
    next
      assume "\<exists>its j. get_prop body ''items'' = Inr (JArr its) \<and> j < length its
           \<and> e \<in> set (item_errors j (its ! j))"
      then obtain its j where i: "get_prop body ''items'' = Inr (JArr its)"
        and j: "j < length its" and e: "e \<in> set (item_errors j (its ! j))"
        by blast
      have "\<not> nullish (its ! j)"
        using assms i j by (auto simp add: raises_def)
      from item_errors_field [OF this e] show ?thesis
        by auto
    qed
  qed
  have A: "err ''vehicleId'' ''is required'' \<in> set ?errors
         \<and> (\<forall>e \<in> set ?errors. field e = ''vehicleId'' \<longrightarrow> reason e = ''is required'')"
    if v: "get_prop body ''vehicleId'' = Inr (JStr [])"
  proof -
    have "\<forall>e \<in> set ?errors. field e = ''vehicleId'' \<longrightarrow> reason e = ''is required''"
      unfolding mem
      using odometerKm_errors_field [of body] note_errors_field [of body] item_not_vid
      by (auto simp add: vehicleId_errors_empty [OF v] err_def)
    then show ?thesis
      by (simp add: vehicleId_errors_empty [OF v])
  qed
  have only_item: "\<exists>j < length its. e \<in> set (item_errors j (its ! j)) \<and> j = i"
    if items: "get_prop body ''items'' = Inr (JArr its)" and e: "e \<in> set ?errors"
      and f: "field e = item_field i n" and n: "n = ''key'' \<or> n = ''status''" for its e i n
  proof -
    have ok: "\<forall>item \<in> set its. \<not> nullish item"
      using assms items by (auto simp add: raises_def)
    have "e \<in> set (items_errors body)"
      using e f vehicleId_errors_field [of st body] odometerKm_errors_field [of body]
        note_errors_field [of body] unfolding mem by auto
    from items_errors_members [OF items ok this] f
    obtain j where j: "j < length its" and ej: "e \<in> set (item_errors j (its ! j))"
      by auto
    from item_errors_field [OF _ ej] ok j f n have "j = i"
      by auto
    then show ?thesis using j ej by blast
  qed
  have B: "err (item_field i ''key'') ''is required'' \<in> set ?errors
         \<and> (\<forall>e \<in> set ?errors. field e = item_field i ''key'' \<longrightarrow> reason e = ''is required'')"
    if items: "get_prop body ''items'' = Inr (JArr its)" and i: "i < length its"
      and k: "get_prop (its ! i) ''key'' = Inr (JStr [])" for its i
  proof -
    have ok: "\<forall>item \<in> set its. \<not> nullish item"
      using assms items by (auto simp add: raises_def)
    have "err (item_field i ''key'') ''is required'' \<in> set (items_errors body)"
      using item_errors_subset [OF items ok i] item_errors_empty_key(1) [OF k] by blast
    moreover have "reason e = ''is required''"
      if "e \<in> set ?errors" "field e = item_field i ''key''" for e
      using only_item [OF items that] item_errors_empty_key(2) [OF k _ that(2)] by blast
    ultimately show ?thesis by simp
  qed
  have C: "err (item_field i ''status'') ''is required'' \<in> set ?errors
         \<and> (\<forall>e \<in> set ?errors. field e = item_field i ''status'' \<longrightarrow>
               reason e = ''is required'')"
    if items: "get_prop body ''items'' = Inr (JArr its)" and i: "i < length its"
      and k: "get_prop (its ! i) ''status'' = Inr (JStr [])" for its i
  proof -
    have ok: "\<forall>item \<in> set its. \<not> nullish item"
      using assms items by (auto simp add: raises_def)
    have "err (item_field i ''status'') ''is required'' \<in> set (items_errors body)"
      using item_errors_subset [OF items ok i] item_errors_empty_status(1) [OF k] by blast
    moreover have "reason e = ''is required''"
      if "e \<in> set ?errors" "field e = item_field i ''status''" for e
      using only_item [OF items that] item_errors_empty_status(2) [OF k _ that(2)] by blast
    ultimately show ?thesis by simp
  qed
  show ?thesis
    using ret A B C by blast
qed

theorem empty_string_is_missing_witness:
  "\<not> raises emptyStringsBody
   \<and> get_prop emptyStringsBody ''vehicleId'' = Inr (JStr [])
   \<and> (\<exists>errors. validateCheckRequest mockStore emptyStringsBody = Inr errors
        \<and> err ''vehicleId'' ''is required'' \<in> set errors
        \<and> err ''items[0].key'' ''is required'' \<in> set errors
        \<and> err ''items[0].status'' ''is required'' \<in> set errors)"
  using empty_string_is_missing [of emptyStringsBody mockStore]
  by (simp add: raises_def nullish_def emptyStringsBody_def validator_defs
      string_of_nat.simps digit_char_def)

end
